theory Spec2Isabelle
  imports Complex_Main "HOL-Library.Log_Nat"
begin

section \<open>Python floats\<close>

text \<open>
  Every number the script computes with is a Python \<^verbatim>\<open>float\<close>, that is an IEEE 754
  binary64 value. A float is modelled by the number it denotes: a finite double by the
  real it stands for, plus the two infinities and NaN. The two signed zeros are one value
  here: the script only multiplies, divides, subtracts and compares, and Python compares
  \<^verbatim>\<open>0.0\<close> and \<^verbatim>\<open>-0.0\<close> as equal and raises on division by either. The type has
  a value \<open>Finite x\<close> for every real \<open>x\<close>, the doubles among them being the fixed points
  of \<open>round_double\<close> below; what is proved for every \<open>Finite x\<close> holds for every double,
  and each operation returns a double.
\<close>

datatype pyfloat = Finite real | PosInf | NegInf | NaN

datatype py_exception =
  RequestException | AttributeError | IndexError | ValueError | ZeroDivisionError

text \<open>Rounding to the nearest integer, ties to the even one.\<close>

definition round_half_even :: "real \<Rightarrow> int" where
  "round_half_even y =
     (let f = \<lfloor>y\<rfloor>; d = y - of_int f
      in if d < 1 / 2 then f
         else if 1 / 2 < d then f + 1
         else if even f then f else f + 1)"

text \<open>The binary exponent of a positive number: \<open>2 powi ilog2 a \<le> a < 2 powi (ilog2 a + 1)\<close>.\<close>

definition ilog2 :: "real \<Rightarrow> int" where
  "ilog2 a = (if 1 \<le> a then bitlen \<lfloor>a\<rfloor> - 1 else - bitlen (\<lceil>1 / a\<rceil> - 1))"

text \<open>
  The result of every float operation is the exact result rounded to binary64, round to
  nearest, ties to even. A double has 53 significant bits, so a magnitude \<open>a\<close> is
  rounded to a multiple of \<open>2 powi ulp_exp a\<close>, the unit in its last place; the least
  such exponent is \<open>-1074\<close> (subnormal numbers). A rounded magnitude of \<open>2 ^ 1024\<close> or
  more is an infinity.
\<close>

definition ulp_exp :: "real \<Rightarrow> int" where
  "ulp_exp a = max (ilog2 a - 52) (- 1074)"

definition round_mag :: "real \<Rightarrow> real" where
  "round_mag a = of_int (round_half_even (a / 2 powi ulp_exp a)) * 2 powi ulp_exp a"

definition round_double :: "real \<Rightarrow> pyfloat" where
  "round_double q =
     (if q = 0 then Finite 0
      else if 2 ^ 1024 \<le> round_mag \<bar>q\<bar> then (if 0 < q then PosInf else NegInf)
      else Finite (sgn q * round_mag \<bar>q\<bar>))"

text \<open>\<^verbatim>\<open>a * b\<close> on floats. It never raises.\<close>

fun py_mul :: "pyfloat \<Rightarrow> pyfloat \<Rightarrow> pyfloat" where
  "py_mul NaN _ = NaN"
| "py_mul _ NaN = NaN"
| "py_mul (Finite x) (Finite y) = round_double (x * y)"
| "py_mul (Finite x) PosInf = (if x = 0 then NaN else if 0 < x then PosInf else NegInf)"
| "py_mul (Finite x) NegInf = (if x = 0 then NaN else if 0 < x then NegInf else PosInf)"
| "py_mul PosInf (Finite y) = (if y = 0 then NaN else if 0 < y then PosInf else NegInf)"
| "py_mul NegInf (Finite y) = (if y = 0 then NaN else if 0 < y then NegInf else PosInf)"
| "py_mul PosInf PosInf = PosInf"
| "py_mul PosInf NegInf = NegInf"
| "py_mul NegInf PosInf = NegInf"
| "py_mul NegInf NegInf = PosInf"

text \<open>\<^verbatim>\<open>a - b\<close> on floats. It never raises.\<close>

fun py_sub :: "pyfloat \<Rightarrow> pyfloat \<Rightarrow> pyfloat" where
  "py_sub NaN _ = NaN"
| "py_sub _ NaN = NaN"
| "py_sub (Finite x) (Finite y) = round_double (x - y)"
| "py_sub (Finite x) PosInf = NegInf"
| "py_sub (Finite x) NegInf = PosInf"
| "py_sub PosInf (Finite y) = PosInf"
| "py_sub NegInf (Finite y) = NegInf"
| "py_sub PosInf PosInf = NaN"
| "py_sub PosInf NegInf = PosInf"
| "py_sub NegInf PosInf = NegInf"
| "py_sub NegInf NegInf = NaN"

text \<open>
  \<^verbatim>\<open>a / b\<close> on floats: Python raises \<^verbatim>\<open>ZeroDivisionError\<close> when the divisor is
  zero, whatever the dividend is, and otherwise follows IEEE 754.
\<close>

fun py_truediv :: "pyfloat \<Rightarrow> pyfloat \<Rightarrow> py_exception + pyfloat" where
  "py_truediv a (Finite y) =
     (if y = 0 then Inl ZeroDivisionError
      else case a of
             Finite x \<Rightarrow> Inr (round_double (x / y))
           | PosInf \<Rightarrow> Inr (if 0 < y then PosInf else NegInf)
           | NegInf \<Rightarrow> Inr (if 0 < y then NegInf else PosInf)
           | NaN \<Rightarrow> Inr NaN)"
| "py_truediv a NaN = Inr NaN"
| "py_truediv (Finite x) PosInf = Inr (Finite 0)"
| "py_truediv (Finite x) NegInf = Inr (Finite 0)"
| "py_truediv NaN b = Inr NaN"
| "py_truediv a b = Inr NaN"

text \<open>\<^verbatim>\<open>a > b\<close> and \<^verbatim>\<open>a <= b\<close>: false as soon as one side is NaN.\<close>

fun py_gt :: "pyfloat \<Rightarrow> pyfloat \<Rightarrow> bool" where
  "py_gt NaN _ = False"
| "py_gt _ NaN = False"
| "py_gt (Finite x) (Finite y) = (y < x)"
| "py_gt PosInf b = (b \<noteq> PosInf)"
| "py_gt a NegInf = (a \<noteq> NegInf)"
| "py_gt a b = False"

fun py_le :: "pyfloat \<Rightarrow> pyfloat \<Rightarrow> bool" where
  "py_le NaN _ = False"
| "py_le _ NaN = False"
| "py_le (Finite x) (Finite y) = (x \<le> y)"
| "py_le NegInf b = True"
| "py_le a PosInf = True"
| "py_le a b = False"

section \<open>The quote fetcher\<close>

text \<open>
  \<^verbatim>\<open>requests.get(url, headers=headers, timeout=5)\<close> either raises (no connection,
  timeout) or returns a response, of which the script reads the text only.
\<close>

datatype http_result = RequestFailed | Response string

text \<open>
  \<^verbatim>\<open>re.search(r'KEY="(.*?)";', text)\<close> followed by \<^verbatim>\<open>.group(1)\<close>. The search takes
  the leftmost position where the literal \<open>KEY="\<close> starts and a \<open>";\<close> follows on the
  same line (the dot matches no newline), and group 1 is the shortest text up to such a
  \<open>";\<close>. \<open>lazy_until\<close> is the part \<^verbatim>\<open>(.*?)";\<close>, \<open>match_at\<close> the whole pattern at one
  position.
\<close>

definition dquote :: char where
  "dquote = CHR 0x22"

definition newline :: char where
  "newline = CHR 0x0A"

fun starts_with :: "string \<Rightarrow> string \<Rightarrow> bool" where
  "starts_with [] s = True"
| "starts_with (p # ps) [] = False"
| "starts_with (p # ps) (c # cs) = (p = c \<and> starts_with ps cs)"

fun lazy_until :: "string \<Rightarrow> string option" where
  "lazy_until [] = None"
| "lazy_until (c # cs) =
     (if starts_with [dquote, CHR '';''] (c # cs) then Some []
      else if c = newline then None
      else map_option ((#) c) (lazy_until cs))"

definition match_at :: "string \<Rightarrow> string \<Rightarrow> string option" where
  "match_at key s =
     (if starts_with (key @ [CHR ''='', dquote]) s
      then lazy_until (drop (length key + 2) s) else None)"

fun re_search :: "string \<Rightarrow> string \<Rightarrow> string option" where
  "re_search key [] = match_at key []"
| "re_search key (c # cs) =
     (case match_at key (c # cs) of Some g \<Rightarrow> Some g | None \<Rightarrow> re_search key cs)"

text \<open>\<^verbatim>\<open>s.split(',')\<close>: always at least one field.\<close>

fun split_comma :: "string \<Rightarrow> string list" where
  "split_comma [] = [[]]"
| "split_comma (c # cs) =
     (if c = CHR '','' then [] # split_comma cs
      else case split_comma cs of [] \<Rightarrow> [[c]] | w # ws \<Rightarrow> (c # w) # ws)"

text \<open>\<^verbatim>\<open>xs[i]\<close> for an index that is not negative.\<close>

definition py_index :: "'a list \<Rightarrow> nat \<Rightarrow> py_exception + 'a" where
  "py_index xs i = (if i < length xs then Inr (xs ! i) else Inl IndexError)"

text \<open>
  The body of the \<^verbatim>\<open>try\<close> block of \<^verbatim>\<open>get_realtime_data\<close>, statement by statement;
  \<open>Inl\<close> is the exception that leaves it. Python's built-in \<^verbatim>\<open>float(s)\<close> is the
  parameter \<open>float_of\<close>, with \<open>None\<close> for the strings on which it raises
  \<^verbatim>\<open>ValueError\<close>. A failed search returns \<^verbatim>\<open>None\<close>, on which \<^verbatim>\<open>.group\<close> raises
  \<^verbatim>\<open>AttributeError\<close>.
\<close>

definition get_realtime_data_try ::
  "(string \<Rightarrow> pyfloat option) \<Rightarrow> http_result \<Rightarrow> py_exception + (pyfloat \<times> pyfloat)" where
  "get_realtime_data_try float_of r =
     (case r of
        RequestFailed \<Rightarrow> Inl RequestException
      | Response text \<Rightarrow>
         (case re_search ''hq_str_hf_XAU'' text of
            None \<Rightarrow> Inl AttributeError
          | Some xau_str \<Rightarrow>
             (case py_index (split_comma xau_str) 0 of
                Inl e \<Rightarrow> Inl e
              | Inr f0 \<Rightarrow>
                 (case float_of f0 of
                    None \<Rightarrow> Inl ValueError
                  | Some xau_price \<Rightarrow>
                     (case re_search ''hq_str_fx_susdcny'' text of
                        None \<Rightarrow> Inl AttributeError
                      | Some rate_str \<Rightarrow>
                         (case py_index (split_comma rate_str) 1 of
                            Inl e \<Rightarrow> Inl e
                          | Inr f1 \<Rightarrow>
                             (case float_of f1 of
                                None \<Rightarrow> Inl ValueError
                              | Some usd_cny_rate \<Rightarrow> Inr (xau_price, usd_cny_rate))))))))"

text \<open>
  What the page shows besides the metrics: the message of the \<^verbatim>\<open>except\<close> branch, with
  the exception it reports, and the message of the script's \<^verbatim>\<open>else\<close> branch.
\<close>

datatype ui_message = FetchFailed py_exception | ConnectingToMarket

text \<open>
  \<^verbatim>\<open>get_realtime_data\<close>: the \<^verbatim>\<open>try\<close> block with its handler
  \<^verbatim>\<open>except Exception as e: st.error(...); return 0, 0\<close>. The pair \<^verbatim>\<open>0, 0\<close> is a
  pair of Python ints; they are only ever compared with \<^verbatim>\<open>0\<close>, where the int
  \<^verbatim>\<open>0\<close> and the float \<^verbatim>\<open>0.0\<close> behave alike.
\<close>

definition get_realtime_data ::
  "(string \<Rightarrow> pyfloat option) \<Rightarrow> http_result \<Rightarrow> (pyfloat \<times> pyfloat) \<times> ui_message list" where
  "get_realtime_data float_of r =
     (case get_realtime_data_try float_of r of
        Inr quote \<Rightarrow> (quote, [])
      | Inl e \<Rightarrow> ((Finite 0, Finite 0), [FetchFailed e]))"

section \<open>The premium calculation\<close>

text \<open>The literal \<^verbatim>\<open>31.1035\<close> is the double nearest to it.\<close>

definition GRAMS_PER_OUNCE :: pyfloat where
  "GRAMS_PER_OUNCE = round_double (311035 / 10000)"

definition intl_gold_cny_g :: "pyfloat \<Rightarrow> pyfloat \<Rightarrow> py_exception + pyfloat" where
  "intl_gold_cny_g xau_price exchange_rate =
     py_truediv (py_mul xau_price exchange_rate) GRAMS_PER_OUNCE"

definition price_diff :: "pyfloat \<Rightarrow> pyfloat \<Rightarrow> pyfloat" where
  "price_diff ctf_price_input cost = py_sub ctf_price_input cost"

definition premium_rate :: "pyfloat \<Rightarrow> pyfloat \<Rightarrow> py_exception + pyfloat" where
  "premium_rate diff cost =
     (case py_truediv diff cost of
        Inl e \<Rightarrow> Inl e
      | Inr d \<Rightarrow> Inr (py_mul d (Finite 100)))"

text \<open>
  The three messages of \<^verbatim>\<open>state_msg\<close> are the three bands: the red one (premium very
  high) is \<open>High\<close>, the yellow one (premium moderate) \<open>Moderate\<close>, the green one (premium
  low) \<open>Low\<close>.
\<close>

datatype band = Low | Moderate | High

definition state_msg :: "pyfloat \<Rightarrow> band" where
  "state_msg premium =
     (if py_gt premium (Finite 30) then High
      else if py_gt premium (Finite 20) then Moderate
      else Low)"

fun band_rank :: "band \<Rightarrow> nat" where
  "band_rank Low = 0"
| "band_rank Moderate = 1"
| "band_rank High = 2"

definition band_le :: "band \<Rightarrow> band \<Rightarrow> bool" where
  "band_le a b = (band_rank a \<le> band_rank b)"

text \<open>The numbers handed to the display code, and the band shown with them.\<close>

record premium_result =
  converted_cost :: pyfloat
  absolute_diff :: pyfloat
  percentage_diff :: pyfloat
  premium_band :: band

text \<open>
  One run of the script ends in one of three ways: the metrics are displayed, the
  \<^verbatim>\<open>else\<close> branch reports that no data is there, or an exception leaves the script
  (nothing in sections 4 to 6 of the script catches any).
\<close>

datatype outcome = Rendered premium_result | Unavailable | Crashed py_exception

text \<open>
  Sections 4 and 5 of the script on a fetched pair: the guard \<^verbatim>\<open>if xau_price > 0\<close>,
  the three formulas in order and the band.
\<close>

definition compute :: "pyfloat \<times> pyfloat \<Rightarrow> pyfloat \<Rightarrow> outcome \<times> ui_message list" where
  "compute quote ctf_price_input =
     (case quote of (xau_price, exchange_rate) \<Rightarrow>
        if py_gt xau_price (Finite 0) then
          (case intl_gold_cny_g xau_price exchange_rate of
             Inl e \<Rightarrow> (Crashed e, [])
           | Inr cost \<Rightarrow>
              (case premium_rate (price_diff ctf_price_input cost) cost of
                 Inl e \<Rightarrow> (Crashed e, [])
               | Inr premium \<Rightarrow>
                  (Rendered \<lparr>converted_cost = cost,
                             absolute_diff = price_diff ctf_price_input cost,
                             percentage_diff = premium,
                             premium_band = state_msg premium\<rparr>, [])))
        else (Unavailable, [ConnectingToMarket]))"

text \<open>The whole script on a cache miss: fetch, then compute.\<close>

definition dashboard ::
  "(string \<Rightarrow> pyfloat option) \<Rightarrow> http_result \<Rightarrow> pyfloat \<Rightarrow> outcome \<times> ui_message list" where
  "dashboard float_of r ctf_price_input =
     (case get_realtime_data float_of r of
        (quote, shown) \<Rightarrow>
          (case compute quote ctf_price_input of
             (res, shown') \<Rightarrow> (res, shown @ shown')))"

section \<open>The specification's reading of the response\<close>

text \<open>
  The specification describes the parsing by fields: the first comma-separated field of
  the commodity line is the unit price, the second field of the currency line is the
  exchange rate. These two definitions follow that description; the fetcher above is
  compared with them.
\<close>

definition spec_commodity_field :: "string \<Rightarrow> string option" where
  "spec_commodity_field text =
     (case re_search ''hq_str_hf_XAU'' text of
        None \<Rightarrow> None
      | Some line \<Rightarrow> (case split_comma line of [] \<Rightarrow> None | f # fs \<Rightarrow> Some f))"

definition spec_currency_field :: "string \<Rightarrow> string option" where
  "spec_currency_field text =
     (case re_search ''hq_str_fx_susdcny'' text of
        None \<Rightarrow> None
      | Some line \<Rightarrow>
         (case split_comma line of [] \<Rightarrow> None | [f] \<Rightarrow> None | f # g # fs \<Rightarrow> Some g))"

definition spec_parse :: "(string \<Rightarrow> pyfloat option) \<Rightarrow> string option \<Rightarrow> pyfloat option" where
  "spec_parse float_of field = (case field of None \<Rightarrow> None | Some s \<Rightarrow> float_of s)"

text \<open>
  The specification's example gives its figures to two decimals, the precision at which
  the script displays them (\<^verbatim>\<open>:.2f\<close>): a float is approximately such a figure when it
  is finite and rounds to it, that is when it lies within half a hundredth of it.
\<close>

fun approx_2dp :: "pyfloat \<Rightarrow> real \<Rightarrow> bool" where
  "approx_2dp (Finite v) d = (\<bar>v - d\<bar> \<le> 1 / 200)"
| "approx_2dp PosInf d = False"
| "approx_2dp NegInf d = False"
| "approx_2dp NaN d = False"

text \<open>An outcome shows given figures when it displays metrics that are approximately them.\<close>

fun shows_figures :: "outcome \<Rightarrow> real \<Rightarrow> real \<Rightarrow> real \<Rightarrow> band \<Rightarrow> bool" where
  "shows_figures (Rendered res) c d p b =
     (approx_2dp (converted_cost res) c \<and> approx_2dp (absolute_diff res) d
      \<and> approx_2dp (percentage_diff res) p \<and> premium_band res = b)"
| "shows_figures Unavailable c d p b = False"
| "shows_figures (Crashed e) c d p b = False"

section \<open>Example inputs\<close>

text \<open>
  A response in the format the comment in \<^verbatim>\<open>get_realtime_data\<close> describes, with the
  figures of the specification's example; the currency line starts with a time, so that
  its second field is the rate. The second response lacks the currency line. On the
  strings that occur in them Python's \<^verbatim>\<open>float\<close> is the function \<open>float_of_example\<close>:
  it parses \<^verbatim>\<open>2034.50\<close> and \<^verbatim>\<open>7.1534\<close> and raises on \<^verbatim>\<open>12:00:01\<close>.
\<close>

definition float_of_example :: "string \<Rightarrow> pyfloat option" where
  "float_of_example s =
     (if s = ''2034.50'' then Some (Finite (4069 / 2))
      else if s = ''7.1534'' then Some (round_double (71534 / 10000))
      else None)"

definition response_example :: string where
  "response_example =
     ''var hq_str_hf_XAU='' @ [dquote] @ ''2034.50,2034.00,2035.10'' @ [dquote, CHR '';'', newline]
     @ ''var hq_str_fx_susdcny='' @ [dquote] @ ''12:00:01,7.1534,7.1540'' @ [dquote, CHR '';'', newline]"

definition response_no_currency :: string where
  "response_no_currency =
     ''var hq_str_hf_XAU='' @ [dquote] @ ''2034.50,2034.00,2035.10'' @ [dquote, CHR '';'', newline]"

section \<open>Facts about rounding\<close>

lemma rhe_lower: "of_int (round_half_even y) \<ge> y - 1 / 2"
  unfolding round_half_even_def Let_def by (auto; linarith)

lemma rhe_upper: "of_int (round_half_even y) \<le> y + 1 / 2"
  unfolding round_half_even_def Let_def by (auto; linarith)

lemma rhe_ge_floor: "\<lfloor>y\<rfloor> \<le> round_half_even y"
  unfolding round_half_even_def Let_def by auto

lemma rhe_le_floor1: "round_half_even y \<le> \<lfloor>y\<rfloor> + 1"
  unfolding round_half_even_def Let_def by auto

lemma rhe_of_int [simp]: "round_half_even (of_int n) = n"
  unfolding round_half_even_def Let_def by simp

lemma rhe_mono: "x \<le> y \<Longrightarrow> round_half_even x \<le> round_half_even y"
proof -
  assume xy: "x \<le> y"
  have fl: "\<lfloor>x\<rfloor> \<le> \<lfloor>y\<rfloor>" using xy by (rule floor_mono)
  show ?thesis
  proof (cases "\<lfloor>x\<rfloor> = \<lfloor>y\<rfloor>")
    case True
    then show ?thesis using xy unfolding round_half_even_def Let_def by auto
  next
    case False
    then have "\<lfloor>x\<rfloor> + 1 \<le> \<lfloor>y\<rfloor>" using fl by linarith
    then show ?thesis using rhe_le_floor1 [of x] rhe_ge_floor [of y] by linarith
  qed
qed

lemma rhe_eq: "\<bar>y - of_int m\<bar> < 1 / 2 \<Longrightarrow> round_half_even y = m"
proof -
  assume h: "\<bar>y - of_int m\<bar> < 1 / 2"
  have "\<lfloor>y\<rfloor> = m \<or> \<lfloor>y\<rfloor> = m - 1" using h by linarith
  then show ?thesis
  proof
    assume "\<lfloor>y\<rfloor> = m"
    then show ?thesis using h unfolding round_half_even_def Let_def by auto
  next
    assume "\<lfloor>y\<rfloor> = m - 1"
    then show ?thesis using h unfolding round_half_even_def Let_def by (auto; linarith)
  qed
qed

lemma ilog2_bounds:
  assumes "0 < a"
  shows "2 powi ilog2 a \<le> a" and "a < 2 powi (ilog2 a + 1)"
proof -
  have "2 powi ilog2 a \<le> a \<and> a < 2 powi (ilog2 a + 1)"
  proof (cases "1 \<le> a")
    case True
    define n where "n = \<lfloor>a\<rfloor>"
    have n1: "1 \<le> n" using True unfolding n_def by linarith
    then have n0: "0 < n" by linarith
    have b1: "1 \<le> bitlen n" using n0 bitlen_eq_zero_iff [of n] bitlen_nonneg [of n] by linarith
    define k where "k = nat (bitlen n - 1)"
    have ik: "ilog2 a = int k" using b1 True unfolding ilog2_def k_def n_def by simp
    have bb: "2 ^ k \<le> n" "n < 2 ^ (Suc k)"
      using bitlen_bounds [OF n0] b1 unfolding k_def
      by (auto simp: nat_diff_distrib Suc_nat_eq_nat_zadd1 nat_add_distrib)
    have "(2::real) ^ k \<le> of_int n" using bb(1) by (metis of_int_le_iff of_int_numeral of_int_power)
    also have "\<dots> \<le> a" unfolding n_def by simp
    finally have lo: "(2::real) ^ k \<le> a" .
    have "n + 1 \<le> 2 ^ Suc k" using bb(2) by linarith
    then have "of_int (n + 1) \<le> (2::real) ^ Suc k" by (metis of_int_le_iff of_int_numeral of_int_power)
    moreover have "a < of_int (n + 1)" unfolding n_def by linarith
    ultimately have hi: "a < (2::real) ^ Suc k" by linarith
    have "int k + 1 = int (Suc k)" by simp
    then show ?thesis using lo hi unfolding ik by (simp only: power_int_of_nat)
  next
    case False
    then have a1: "a < 1" by simp
    define n where "n = \<lceil>1 / a\<rceil> - 1"
    have "1 < 1 / a" using a1 assms by simp
    then have n1: "1 \<le> n" unfolding n_def by linarith
    then have n0: "0 < n" by linarith
    have b1: "1 \<le> bitlen n" using n0 bitlen_eq_zero_iff [of n] bitlen_nonneg [of n] by linarith
    define j where "j = nat (bitlen n)"
    obtain k where jk: "j = Suc k" using b1 unfolding j_def by (cases "nat (bitlen n)") auto
    have ij: "ilog2 a = - int j" using b1 False unfolding ilog2_def j_def n_def by simp
    have bb: "2 ^ k \<le> n" "n < 2 ^ j"
      using bitlen_bounds [OF n0] b1 jk unfolding j_def
      by (auto simp: nat_diff_distrib)
    have nlt: "of_int n < 1 / a" unfolding n_def by linarith
    have nge: "1 / a \<le> of_int (n + 1)" unfolding n_def by simp
    have "n + 1 \<le> 2 ^ j" using bb(2) by linarith
    then have "of_int (n + 1) \<le> (2::real) ^ j" by (metis of_int_le_iff of_int_numeral of_int_power)
    then have "1 / a \<le> (2::real) ^ j" using nge by linarith
    then have lo: "1 / 2 ^ j \<le> a" using assms
      by (simp add: field_simps)
    have "(2::real) ^ k \<le> of_int n" using bb(1) by (metis of_int_le_iff of_int_numeral of_int_power)
    then have "(2::real) ^ k < 1 / a" using nlt by linarith
    then have hi: "a < 1 / 2 ^ k" using assms by (simp add: field_simps)
    have e1: "(2::real) powi (- int j) = 1 / 2 ^ j"
      by (simp add: power_int_minus field_simps)
    have e2: "(2::real) powi (- int j + 1) = 1 / 2 ^ k"
      unfolding jk by (simp add: power_int_minus field_simps)
    show ?thesis using lo hi unfolding ij e1 e2 by simp
  qed
  then show "2 powi ilog2 a \<le> a" and "a < 2 powi (ilog2 a + 1)" by simp_all
qed

lemma powi2_mono: "i \<le> j \<Longrightarrow> (2::real) powi i \<le> 2 powi j"
  by (rule power_int_increasing) simp_all

lemma powi2_less_exp: "(2::real) powi i < 2 powi j \<Longrightarrow> i < j"
  using powi2_mono [of j i] by (cases "i < j") auto

lemma ilog2_unique:
  assumes "0 < a" "2 powi e \<le> a" "a < 2 powi (e + 1)"
  shows "ilog2 a = e"
proof -
  have "2 powi e < (2::real) powi (ilog2 a + 1)" using assms(2) ilog2_bounds(2) [OF assms(1)] by linarith
  then have 1: "e < ilog2 a + 1" by (rule powi2_less_exp)
  have "2 powi ilog2 a < (2::real) powi (e + 1)" using assms(3) ilog2_bounds(1) [OF assms(1)] by linarith
  then have 2: "ilog2 a < e + 1" by (rule powi2_less_exp)
  show ?thesis using 1 2 by linarith
qed

lemma ilog2_mono:
  assumes "0 < a" "a \<le> b"
  shows "ilog2 a \<le> ilog2 b"
proof -
  have b0: "0 < b" using assms by linarith
  have "2 powi ilog2 a < (2::real) powi (ilog2 b + 1)"
    using ilog2_bounds(1) [OF assms(1)] ilog2_bounds(2) [OF b0] assms(2) by linarith
  then have "ilog2 a < ilog2 b + 1" by (rule powi2_less_exp)
  then show ?thesis by linarith
qed

lemma powi2_pos [simp]: "0 < (2::real) powi i"
  by simp

lemma powi2_add: "(2::real) powi (i + j) = 2 powi i * 2 powi j"
  by (simp add: power_int_add)

lemma powi2_53: "(2::real) powi (i + 53) = 2 powi i * 2 ^ 53"
  using powi2_add [of i 53] by simp

lemma powi2_52: "(2::real) powi (i + 52) = 2 powi i * 2 ^ 52"
  using powi2_add [of i 52] by simp

lemma ulp_exp_ge: "- 1074 \<le> ulp_exp a"
  unfolding ulp_exp_def by simp

lemma ulp_exp_mono: "0 < a \<Longrightarrow> a \<le> b \<Longrightarrow> ulp_exp a \<le> ulp_exp b"
  unfolding ulp_exp_def using ilog2_mono [of a b] by simp

lemma scaled_lt:
  assumes "0 < a"
  shows "a / 2 powi ulp_exp a < 2 ^ 53"
proof -
  have "ilog2 a + 1 \<le> ulp_exp a + 53" unfolding ulp_exp_def by simp
  then have "(2::real) powi (ilog2 a + 1) \<le> 2 powi (ulp_exp a + 53)" by (rule powi2_mono)
  then have "a < 2 powi ulp_exp a * 2 ^ 53"
    using ilog2_bounds(2) [OF assms] unfolding powi2_53 by linarith
  then show ?thesis by (simp add: field_simps)
qed

lemma scaled_ge:
  assumes "0 < a" "- 1074 < ulp_exp a"
  shows "2 ^ 52 \<le> a / 2 powi ulp_exp a"
proof -
  have "ilog2 a = ulp_exp a + 52" using assms(2) unfolding ulp_exp_def by simp
  then have "2 powi (ulp_exp a + 52) \<le> a" using ilog2_bounds(1) [OF assms(1)] by simp
  then have "2 powi ulp_exp a * 2 ^ 52 \<le> a" unfolding powi2_52 .
  then show ?thesis by (simp add: field_simps)
qed

lemma mant_le:
  assumes "0 < a"
  shows "round_half_even (a / 2 powi ulp_exp a) \<le> 2 ^ 53"
proof -
  have "round_half_even (a / 2 powi ulp_exp a) \<le> round_half_even (of_int (2 ^ 53))"
    using scaled_lt [OF assms] by (intro rhe_mono) simp
  then show ?thesis unfolding rhe_of_int .
qed

lemma mant_ge:
  assumes "0 < a" "- 1074 < ulp_exp a"
  shows "2 ^ 52 \<le> round_half_even (a / 2 powi ulp_exp a)"
proof -
  have "round_half_even (of_int (2 ^ 52)) \<le> round_half_even (a / 2 powi ulp_exp a)"
    using scaled_ge [OF assms] by (intro rhe_mono) simp
  then show ?thesis unfolding rhe_of_int .
qed

lemma round_mag_nonneg: "0 \<le> a \<Longrightarrow> 0 \<le> round_mag a"
proof -
  assume a: "0 \<le> a"
  have "0 \<le> a / 2 powi ulp_exp a" using a by simp
  then have "round_half_even (of_int 0) \<le> round_half_even (a / 2 powi ulp_exp a)"
    by (intro rhe_mono) simp
  then have "0 \<le> round_half_even (a / 2 powi ulp_exp a)" unfolding rhe_of_int .
  then show ?thesis unfolding round_mag_def by simp
qed

lemma round_mag_mono:
  assumes "0 < a" "a \<le> b"
  shows "round_mag a \<le> round_mag b"
proof -
  have b0: "0 < b" using assms by linarith
  have ee: "ulp_exp a \<le> ulp_exp b" using assms by (rule ulp_exp_mono)
  show ?thesis
  proof (cases "ulp_exp a = ulp_exp b")
    case True
    have "a / 2 powi ulp_exp b \<le> b / 2 powi ulp_exp b"
      using assms(2) by (simp add: divide_right_mono)
    then have "round_half_even (a / 2 powi ulp_exp b) \<le> round_half_even (b / 2 powi ulp_exp b)"
      by (rule rhe_mono)
    then have "real_of_int (round_half_even (a / 2 powi ulp_exp b))
        \<le> real_of_int (round_half_even (b / 2 powi ulp_exp b))" by simp
    then show ?thesis unfolding round_mag_def True
      by (intro mult_right_mono) simp_all
  next
    case False
    then have lt: "ulp_exp a + 1 \<le> ulp_exp b" using ee by linarith
    then have nb: "- 1074 < ulp_exp b" using ulp_exp_ge [of a] by linarith
    have "real_of_int (round_half_even (a / 2 powi ulp_exp a)) \<le> real_of_int (2 ^ 53)"
      using mant_le [OF assms(1)] by (simp only: of_int_le_iff)
    then have "round_mag a \<le> real_of_int (2 ^ 53) * 2 powi ulp_exp a"
      unfolding round_mag_def by (intro mult_right_mono) simp_all
    also have "\<dots> = 2 powi (ulp_exp a + 53)" unfolding powi2_53 by simp
    also have "\<dots> \<le> 2 powi (ulp_exp b + 52)" using lt by (intro powi2_mono) simp
    also have "\<dots> = real_of_int (2 ^ 52) * 2 powi ulp_exp b" unfolding powi2_52 by simp
    also have "\<dots> \<le> round_mag b"
    proof -
      have "real_of_int (2 ^ 52) \<le> real_of_int (round_half_even (b / 2 powi ulp_exp b))"
        using mant_ge [OF b0 nb] by (simp only: of_int_le_iff)
      then show ?thesis unfolding round_mag_def by (intro mult_right_mono) simp_all
    qed
    finally show ?thesis .
  qed
qed

lemma round_mag_eval:
  assumes "0 < a" "2 powi k \<le> a" "a < 2 powi (k + 1)" "e = max (k - 52) (- 1074)"
    "\<bar>a / 2 powi e - of_int m\<bar> < 1 / 2"
  shows "round_mag a = of_int m * 2 powi e"
proof -
  have "ilog2 a = k" using assms(1-3) by (rule ilog2_unique)
  then have "ulp_exp a = e" unfolding ulp_exp_def using assms(4) by simp
  then show ?thesis unfolding round_mag_def using rhe_eq [OF assms(5)] by simp
qed

lemma round_mag_fixed:
  assumes "0 < m" "m < 2 ^ 53" "- 1074 \<le> e"
  shows "round_mag (of_int m * 2 powi e) = of_int m * 2 powi e"
proof -
  define a where "a = real_of_int m * 2 powi e"
  have a0: "0 < a" unfolding a_def using assms(1) by simp
  have "real_of_int m < real_of_int (2 ^ 53)" using assms(2) by (simp only: of_int_less_iff)
  then have "a < 2 ^ 53 * 2 powi e" unfolding a_def by simp
  then have "a < 2 powi (e + 53)" unfolding powi2_53 by (simp add: mult.commute)
  then have "2 powi ilog2 a < (2::real) powi (e + 53)" using ilog2_bounds(1) [OF a0] by linarith
  then have "ilog2 a < e + 53" by (rule powi2_less_exp)
  then have ue: "ulp_exp a \<le> e" unfolding ulp_exp_def using assms(3) by simp
  define d where "d = nat (e - ulp_exp a)"
  have ed: "e = ulp_exp a + int d" unfolding d_def using ue by simp
  define U where "U = (2::real) powi ulp_exp a"
  have U0: "0 < U" unfolding U_def by simp
  have pe: "(2::real) powi e = U * 2 ^ d"
    unfolding U_def by (subst ed) (simp add: power_int_add)
  have "a = real_of_int m * (U * 2 ^ d)" unfolding a_def pe ..
  then have "a / U = real_of_int (m * 2 ^ d)" using U0 by simp
  then have "round_half_even (a / U) = m * 2 ^ d" by (simp only: rhe_of_int)
  then have "round_mag a = real_of_int (m * 2 ^ d) * U" unfolding round_mag_def U_def by simp
  also have "\<dots> = real_of_int m * (U * 2 ^ d)" by simp
  also have "\<dots> = real_of_int m * 2 powi e" unfolding pe ..
  finally show ?thesis unfolding a_def .
qed

lemma round_double_mono: "a \<le> b \<Longrightarrow> py_le (round_double a) (round_double b)"
proof -
  assume ab: "a \<le> b"
  consider "0 < a" | "b < 0" | "a \<le> 0" "0 \<le> b" by linarith
  then show ?thesis
  proof cases
    case 1
    then have "round_mag \<bar>a\<bar> \<le> round_mag \<bar>b\<bar>" using ab round_mag_mono [of a b] by simp
    then show ?thesis using 1 ab unfolding round_double_def by auto
  next
    case 2
    then have "round_mag \<bar>b\<bar> \<le> round_mag \<bar>a\<bar>" using ab round_mag_mono [of "- b" "- a"] by simp
    then show ?thesis using 2 ab unfolding round_double_def by auto
  next
    case 3
    have "0 \<le> round_mag \<bar>a\<bar>" "0 \<le> round_mag \<bar>b\<bar>" by (simp_all add: round_mag_nonneg)
    then show ?thesis using 3 unfolding round_double_def
      by (auto simp: sgn_if mult_nonneg_nonneg)
  qed
qed

text \<open>A rounded value is a double: rounding it again changes nothing.\<close>

lemma round_mag_idem:
  assumes "0 < a"
  shows "round_mag (round_mag a) = round_mag a"
proof -
  define e where "e = ulp_exp a"
  define m where "m = round_half_even (a / 2 powi e)"
  have v: "round_mag a = of_int m * 2 powi e" unfolding round_mag_def m_def e_def ..
  have e0: "- 1074 \<le> e" unfolding e_def by (rule ulp_exp_ge)
  have m53: "m \<le> 2 ^ 53" unfolding m_def e_def using assms by (rule mant_le)
  have "round_half_even (of_int 0) \<le> round_half_even (a / 2 powi e)"
    using assms by (intro rhe_mono) simp
  then have m0: "0 \<le> m" unfolding m_def rhe_of_int .
  consider "m = 0" | "0 < m" "m < 2 ^ 53" | "m = 2 ^ 53" using m0 m53 by linarith
  then show ?thesis
  proof cases
    case 1
    then show ?thesis unfolding v using rhe_of_int [of 0] by (simp add: round_mag_def)
  next
    case 2
    then show ?thesis unfolding v using e0 by (intro round_mag_fixed)
  next
    case 3
    have "real_of_int m * 2 powi e = of_int (2 ^ 52) * 2 powi (e + 1)"
      unfolding 3 using powi2_add [of e 1] by simp
    moreover have "round_mag (of_int (2 ^ 52) * 2 powi (e + 1)) = of_int (2 ^ 52) * 2 powi (e + 1)"
      using e0 by (intro round_mag_fixed) simp_all
    ultimately show ?thesis unfolding v by simp
  qed
qed

lemma round_double_idem:
  assumes "round_double q = Finite v"
  shows "round_double v = Finite v"
proof (cases "q = 0")
  case True
  then show ?thesis using assms unfolding round_double_def by auto
next
  case False
  then have a: "0 < \<bar>q\<bar>" by simp
  have lt: "\<not> 2 ^ 1024 \<le> round_mag \<bar>q\<bar>" and v: "v = sgn q * round_mag \<bar>q\<bar>"
    using assms False unfolding round_double_def by (auto split: if_splits)
  have n: "0 \<le> round_mag \<bar>q\<bar>" by (intro round_mag_nonneg) simp
  have av: "\<bar>v\<bar> = round_mag \<bar>q\<bar>" unfolding v using False n by (simp add: abs_mult)
  have sv: "sgn v * round_mag \<bar>q\<bar> = v" unfolding v using False n
    by (cases "round_mag \<bar>q\<bar> = 0") (simp_all add: sgn_mult)
  show ?thesis
  proof (cases "v = 0")
    case True
    then show ?thesis unfolding round_double_def by simp
  next
    case False
    then show ?thesis unfolding round_double_def av round_mag_idem [OF a] using lt sv by simp
  qed
qed

lemma round_mag_eval_bound:
  assumes "0 < (q::real)" "2 powi k \<le> q" "q < 2 powi (k + 1)" "e = max (k - 52) (- 1074)"
    "\<bar>q / 2 powi e - of_int m\<bar> < 1 / 2" "k < 1023"
  shows "real_of_int m * 2 powi e < 2 ^ 1024"
proof -
  have "ilog2 q = k" using assms(1-3) by (rule ilog2_unique)
  then have ue: "ulp_exp q = e" unfolding ulp_exp_def using assms(4) by simp
  have "round_half_even (q / 2 powi e) = m" using assms(5) by (rule rhe_eq)
  then have "m \<le> 2 ^ 53" using mant_le [OF assms(1)] unfolding ue by simp
  then have "real_of_int m \<le> real_of_int (2 ^ 53)" by (simp only: of_int_le_iff)
  then have "real_of_int m * 2 powi e \<le> real_of_int (2 ^ 53) * 2 powi e"
    by (intro mult_right_mono) simp_all
  also have "\<dots> = 2 powi (e + 53)" unfolding powi2_53 by simp
  also have "\<dots> \<le> 2 powi 1023" using assms(4,6) by (intro powi2_mono) simp
  also have "\<dots> < 2 ^ 1024" by simp
  finally show ?thesis .
qed

lemma round_double_pos_eval:
  assumes "0 < (q::real)" "2 powi k \<le> q" "q < 2 powi (k + 1)" "e = max (k - 52) (- 1074)"
    "\<bar>q / 2 powi e - of_int m\<bar> < 1 / 2" "k < 1023"
  shows "round_double q = Finite (of_int m * 2 powi e)"
proof -
  have "round_mag \<bar>q\<bar> = of_int m * 2 powi e"
    using assms(1-5) round_mag_eval [of q k e m] by simp
  then show ?thesis using assms(1) round_mag_eval_bound [OF assms] unfolding round_double_def by simp
qed

lemma round_double_neg_eval:
  assumes "(q::real) < 0" "2 powi k \<le> - q" "- q < 2 powi (k + 1)" "e = max (k - 52) (- 1074)"
    "\<bar>- q / 2 powi e - of_int m\<bar> < 1 / 2" "k < 1023"
  shows "round_double q = Finite (- (of_int m * 2 powi e))"
proof -
  have q0: "0 < - q" using assms(1) by simp
  have "round_mag \<bar>q\<bar> = of_int m * 2 powi e"
    using assms(1) round_mag_eval [OF q0 assms(2-5)] by simp
  then show ?thesis
    using assms(1) round_mag_eval_bound [OF q0 assms(2-6)] unfolding round_double_def by simp
qed

section \<open>The specification's example, evaluated\<close>

lemma ex_rate: "round_double (71534 / 10000) = Finite (8054012393608027 / 2 ^ 50)"
  by (subst round_double_pos_eval [where k = 2 and e = "- 50" and m = 8054012393608027])
     (simp_all add: power_int_minus)

lemma ex_prod:
  "round_double (4069 / 2 * (8054012393608027 / 2 ^ 50)) = Finite (8000921979880630 / 2 ^ 39)"
  by (subst round_double_pos_eval [where k = 13 and e = "- 39" and m = 8000921979880630])
     (simp_all add: power_int_minus)

lemma ex_cost:
  "round_double (8000921979880630 / 2 ^ 39 / (8754856938119889 / 2 ^ 48))
     = Finite (8231533536617428 / 2 ^ 44)"
  by (subst round_double_pos_eval [where k = 8 and e = "- 44" and m = 8231533536617428])
     (simp_all add: power_int_minus)

lemma ex_diff:
  "round_double (736 - 8231533536617428 / 2 ^ 44) = Finite (4716315392072748 / 2 ^ 44)"
  by (subst round_double_pos_eval [where k = 8 and e = "- 44" and m = 4716315392072748])
     (simp_all add: power_int_minus)

lemma ex_ratio:
  "round_double (4716315392072748 / 2 ^ 44 / (8231533536617428 / 2 ^ 44))
     = Finite (5160738554441667 / 2 ^ 53)"
  by (subst round_double_pos_eval [where k = "- 1" and e = "- 53" and m = 5160738554441667])
     (simp_all add: power_int_minus)

lemma ex_pct:
  "round_double (5160738554441667 / 2 ^ 53 * 100) = Finite (8063653991315105 / 2 ^ 47)"
  by (subst round_double_pos_eval [where k = 5 and e = "- 47" and m = 8063653991315105])
     (simp_all add: power_int_minus)

lemma g_val: "GRAMS_PER_OUNCE = Finite (8754856938119889 / 2 ^ 48)"
  unfolding GRAMS_PER_OUNCE_def
  by (subst round_double_pos_eval [where k = 4 and e = "- 48" and m = 8754856938119889])
     (simp_all add: power_int_minus)

lemma py_truediv_finite:
  "y \<noteq> 0 \<Longrightarrow> py_truediv (Finite x) (Finite y) = Inr (round_double (x / y))"
  by simp

lemma example_cost:
  "intl_gold_cny_g (Finite (4069 / 2)) (Finite (8054012393608027 / 2 ^ 50))
     = Inr (Finite (8231533536617428 / 2 ^ 44))"
  unfolding intl_gold_cny_g_def g_val py_mul.simps ex_prod
  by (subst py_truediv_finite, simp) (simp only: ex_cost)

lemma example_premium:
  "premium_rate (Finite (4716315392072748 / 2 ^ 44)) (Finite (8231533536617428 / 2 ^ 44))
     = Inr (Finite (8063653991315105 / 2 ^ 47))"
  unfolding premium_rate_def
  by (subst py_truediv_finite, simp) (simp only: ex_ratio sum.case py_mul.simps ex_pct)

lemma example_outcome:
  "compute (Finite (4069 / 2), round_double (71534 / 10000)) (Finite 736)
     = (Rendered \<lparr>converted_cost = Finite (8231533536617428 / 2 ^ 44),
                  absolute_diff = Finite (4716315392072748 / 2 ^ 44),
                  percentage_diff = Finite (8063653991315105 / 2 ^ 47),
                  premium_band = High\<rparr>, [])"
  unfolding compute_def ex_rate
  by (simp only: prod.case py_gt.simps example_cost sum.case price_diff_def py_sub.simps ex_diff
        example_premium state_msg_def) simp

lemma neg_prod: "round_double (2000 * - 7) = Finite (- 14000)"
  by (subst round_double_neg_eval [where k = 13 and e = "- 39" and m = 7696581394432000])
     (simp_all add: power_int_minus)

lemma neg_cost:
  "round_double (- 14000 / (8754856938119889 / 2 ^ 48)) = Finite (- (7918420905101484 / 2 ^ 44))"
  by (subst round_double_neg_eval [where k = 8 and e = "- 44" and m = 7918420905101484])
     (simp_all add: power_int_minus)

lemma neg_diff:
  "round_double (736 - - (7918420905101484 / 2 ^ 44)) = Finite (5216567458447915 / 2 ^ 42)"
  by (subst round_double_pos_eval [where k = 10 and e = "- 42" and m = 5216567458447915])
     (simp_all add: power_int_minus)

lemma neg_ratio:
  "round_double (5216567458447915 / 2 ^ 42 / - (7918420905101484 / 2 ^ 44))
     = Finite (- (5933842503088813 / 2 ^ 51))"
  by (subst round_double_neg_eval [where k = 1 and e = "- 51" and m = 5933842503088813])
     (simp_all add: power_int_minus)

lemma neg_pct:
  "round_double (- (5933842503088813 / 2 ^ 51) * 100) = Finite (- (4635814455538135 / 2 ^ 44))"
  by (subst round_double_neg_eval [where k = 8 and e = "- 44" and m = 4635814455538135])
     (simp_all add: power_int_minus)

lemma neg_rate_cost:
  "intl_gold_cny_g (Finite 2000) (Finite (- 7)) = Inr (Finite (- (7918420905101484 / 2 ^ 44)))"
  unfolding intl_gold_cny_g_def g_val py_mul.simps neg_prod
  by (subst py_truediv_finite, simp) (simp only: neg_cost)

lemma neg_rate_premium:
  "premium_rate (Finite (5216567458447915 / 2 ^ 42)) (Finite (- (7918420905101484 / 2 ^ 44)))
     = Inr (Finite (- (4635814455538135 / 2 ^ 44)))"
  unfolding premium_rate_def
  by (subst py_truediv_finite, simp) (simp only: neg_ratio sum.case py_mul.simps neg_pct)

lemma neg_rate_outcome:
  "compute (Finite 2000, Finite (- 7)) (Finite 736)
     = (Rendered \<lparr>converted_cost = Finite (- (7918420905101484 / 2 ^ 44)),
                  absolute_diff = Finite (5216567458447915 / 2 ^ 42),
                  percentage_diff = Finite (- (4635814455538135 / 2 ^ 44)),
                  premium_band = Low\<rparr>, [])"
  unfolding compute_def
  by (simp only: prod.case py_gt.simps neg_rate_cost sum.case price_diff_def py_sub.simps neg_diff
        neg_rate_premium state_msg_def) simp

lemma intl_total: "\<exists>c. intl_gold_cny_g x r = Inr c"
  unfolding intl_gold_cny_g_def g_val
  by (cases "py_mul x r") simp_all

lemma zero_rate_cost: "intl_gold_cny_g (Finite x) (Finite 0) = Inr (Finite 0)"
  unfolding intl_gold_cny_g_def g_val by (simp add: round_double_def)

section \<open>Facts about the float operations\<close>

lemma round_double_not_nan [simp]: "round_double q \<noteq> NaN"
  unfolding round_double_def by simp

lemma py_le_PosInf [simp]: "py_le a PosInf = (a \<noteq> NaN)"
  by (cases a) simp_all

lemma py_le_NegInf [simp]: "py_le NegInf b = (b \<noteq> NaN)"
  by (cases b) simp_all

lemma py_sub_mono:
  "py_le r1 r2 \<Longrightarrow> py_le (py_sub r1 (Finite c)) (py_sub r2 (Finite c))"
  by (cases r1; cases r2) (simp_all add: round_double_mono)

lemma py_truediv_mono:
  assumes "0 < c" "py_le a b"
  shows "\<exists>u v. py_truediv a (Finite c) = Inr u \<and> py_truediv b (Finite c) = Inr v \<and> py_le u v"
  using assms by (cases a; cases b) (simp_all add: round_double_mono divide_right_mono)

lemma py_mul_mono:
  assumes "0 < k" "py_le a b"
  shows "py_le (py_mul a (Finite k)) (py_mul b (Finite k))"
  using assms by (cases a; cases b) (simp_all add: round_double_mono mult_right_mono)

lemma state_msg_mono: "py_le p q \<Longrightarrow> band_le (state_msg p) (state_msg q)"
  unfolding state_msg_def band_le_def by (cases p; cases q) auto

lemma round_double_pow2:
  assumes "- 1074 \<le> e" "e < 1024"
  shows "round_double (2 powi e) = Finite (2 powi e)"
proof -
  have "round_mag (of_int 1 * 2 powi e) = of_int 1 * 2 powi e"
    using assms(1) by (intro round_mag_fixed) simp_all
  then have m: "round_mag \<bar>2 powi e\<bar> = 2 powi e" by simp
  have "(2::real) powi e \<le> 2 powi 1023" using assms(2) by (intro powi2_mono) simp
  also have "\<dots> < 2 ^ 1024" by simp
  finally have "(2::real) powi e < 2 ^ 1024" .
  then show ?thesis unfolding round_double_def m by simp
qed

lemma round_double_ge_pow2:
  assumes "- 1074 \<le> e" "e < 1024" "2 powi e \<le> q"
  shows "py_le (Finite (2 powi e)) (round_double q)"
  using round_double_mono [OF assms(3)] unfolding round_double_pow2 [OF assms(1,2)] .

lemma py_le_pos: "py_le (Finite l) c \<Longrightarrow> 0 < l \<Longrightarrow> py_gt c (Finite 0)"
  by (cases c) simp_all

lemma underflow_prod: "round_double (2 powi (- 600) * 2 powi (- 600)) = Finite 0"
proof -
  have e: "(2::real) powi (- 600) * 2 powi (- 600) = 2 powi (- 1200)"
    using powi2_add [of "- 600" "- 600"] by simp
  have s: "(2::real) powi (- 1200) / 2 powi (- 1074) = 2 powi (- 126)"
    using powi2_add [of "- 1074" "- 126"] by simp
  have "(2::real) powi (- 126) \<le> 2 powi (- 2)" by (intro powi2_mono) simp
  then have "\<bar>(2::real) powi (- 1200) / 2 powi (- 1074) - of_int 0\<bar> < 1 / 2"
    unfolding s by (simp add: power_int_minus)
  then have "round_mag (2 powi (- 1200)) = of_int 0 * 2 powi (- 1074)"
    by (intro round_mag_eval [where k = "- 1200"]) simp_all
  then show ?thesis unfolding e round_double_def by simp
qed

lemma underflow_cost:
  "intl_gold_cny_g (Finite (2 powi (- 600))) (Finite (2 powi (- 600))) = Inr (Finite 0)"
  unfolding intl_gold_cny_g_def g_val py_mul.simps underflow_prod
  by (simp add: round_double_def)

lemma cost_positive:
  assumes "0 < x" "0 < r" "2 powi (- 1069) \<le> x * r"
  shows "\<exists>c. intl_gold_cny_g (Finite x) (Finite r) = Inr c \<and> py_gt c (Finite 0)"
proof -
  have p: "py_le (Finite (2 powi (- 1069))) (round_double (x * r))"
    using assms(3) by (intro round_double_ge_pow2) simp_all
  show ?thesis
  proof (cases "round_double (x * r)")
    case (Finite pv)
    then have pv: "2 powi (- 1069) \<le> pv" using p by simp
    have "(2::real) powi (- 1074) * 2 ^ 5 = 2 powi (- 1069)"
      using powi2_add [of "- 1074" 5] by simp
    then have "2 powi (- 1074) * 32 \<le> pv" using pv by simp
    then have "2 powi (- 1074) \<le> pv / (8754856938119889 / 2 ^ 48)"
      by (simp add: field_simps)
    then have "py_le (Finite (2 powi (- 1074))) (round_double (pv / (8754856938119889 / 2 ^ 48)))"
      by (intro round_double_ge_pow2) simp_all
    then have "py_gt (round_double (pv / (8754856938119889 / 2 ^ 48))) (Finite 0)"
      by (rule py_le_pos) simp
    then show ?thesis unfolding intl_gold_cny_g_def g_val py_mul.simps Finite
      by (subst py_truediv_finite, simp) simp
  next
    case PosInf
    then show ?thesis unfolding intl_gold_cny_g_def g_val py_mul.simps by simp
  next
    case NegInf
    then show ?thesis using p by simp
  next
    case NaN
    then show ?thesis using p by simp
  qed
qed

section \<open>The accuracy of rounding\<close>

lemma scaled_ge_normal:
  assumes "2 powi (- 1022) \<le> a"
  shows "2 ^ 52 \<le> a / 2 powi ulp_exp a"
proof -
  have a0: "0 < a" using assms powi2_pos [of "- 1022"] by linarith
  have "ilog2 ((2::real) powi (- 1022)) = - 1022"
    by (intro ilog2_unique powi2_pos) (simp_all add: power_int_minus)
  then have "- 1022 \<le> ilog2 a" using ilog2_mono [OF powi2_pos assms] by simp
  then have "ilog2 a = ulp_exp a + 52" unfolding ulp_exp_def by simp
  then have "2 powi (ulp_exp a + 52) \<le> a" using ilog2_bounds(1) [OF a0] by simp
  then have "2 powi ulp_exp a * 2 ^ 52 \<le> a" unfolding powi2_52 .
  then show ?thesis by (simp add: field_simps)
qed

lemma round_mag_rel:
  assumes "2 powi (- 1022) \<le> a"
  shows "\<bar>round_mag a - a\<bar> \<le> a / 2 ^ 53"
proof -
  define E where "E = (2::real) powi ulp_exp a"
  define y where "y = a / E"
  have E0: "0 < E" unfolding E_def by simp
  have ay: "a = y * E" unfolding y_def using E0 by simp
  have y52: "2 ^ 52 \<le> y" unfolding y_def E_def using assms by (rule scaled_ge_normal)
  have "\<bar>real_of_int (round_half_even y) - y\<bar> \<le> 1 / 2"
    using rhe_lower [of y] rhe_upper [of y] by linarith
  also have "\<dots> \<le> y / 2 ^ 53" using y52 by simp
  finally have d: "\<bar>real_of_int (round_half_even y) - y\<bar> \<le> y / 2 ^ 53" .
  have "round_mag a - a = (real_of_int (round_half_even y) - y) * E"
    unfolding round_mag_def ay [symmetric] y_def [symmetric] E_def [symmetric]
    by (simp add: algebra_simps ay)
  then have "\<bar>round_mag a - a\<bar> = \<bar>real_of_int (round_half_even y) - y\<bar> * E"
    using E0 by (simp add: abs_mult)
  also have "\<dots> \<le> y / 2 ^ 53 * E" using d E0 by (intro mult_right_mono) simp_all
  also have "\<dots> = a / 2 ^ 53" unfolding ay by simp
  finally show ?thesis .
qed

lemma round_double_rel:
  assumes "2 powi (- 1022) \<le> a" "a \<le> 2 ^ 1023"
  shows "\<exists>v. round_double a = Finite v \<and> \<bar>v - a\<bar> \<le> a / 2 ^ 53"
proof -
  have a0: "0 < a" using assms(1) powi2_pos [of "- 1022"] by linarith
  have r: "\<bar>round_mag a - a\<bar> \<le> a / 2 ^ 53" using assms(1) by (rule round_mag_rel)
  have "a / 2 ^ 53 \<le> a" using a0 by (simp add: field_simps)
  then have "round_mag a \<le> 2 * a" using r by linarith
  also have "\<dots> \<le> 2 * 2 ^ 1023" using assms(2) by simp
  finally have "round_mag a \<le> 2 ^ 1024" by simp
  moreover have "round_mag a \<noteq> 2 ^ 1024"
  proof
    assume "round_mag a = 2 ^ 1024"
    then have "2 ^ 1024 - a \<le> a / 2 ^ 53" using r by linarith
    then have "2 ^ 1024 \<le> a * (1 + 1 / 2 ^ 53)" by (simp add: algebra_simps)
    also have "\<dots> \<le> 2 ^ 1023 * (1 + 1 / 2 ^ 53)" using assms(2) by (intro mult_right_mono) simp_all
    finally show False by simp
  qed
  ultimately have "round_mag a < 2 ^ 1024" by linarith
  then show ?thesis using a0 r unfolding round_double_def by simp
qed

lemma rel_bounds:
  assumes "\<bar>v - a\<bar> \<le> (a::real) / 2 ^ 53"
  shows "a * (1 - 1 / 2 ^ 53) \<le> v" and "v \<le> a * (1 + 1 / 2 ^ 53)"
proof -
  have "a - v \<le> a / 2 ^ 53" "v - a \<le> a / 2 ^ 53" using assms by linarith+
  then show "a * (1 - 1 / 2 ^ 53) \<le> v" and "v \<le> a * (1 + 1 / 2 ^ 53)"
    by (simp_all add: algebra_simps)
qed

lemma cost_accurate:
  assumes "0 < x" "0 < r" "2 powi (- 1000) \<le> x * r" "x * r \<le> 2 ^ 1000"
  shows "\<exists>c. intl_gold_cny_g (Finite x) (Finite r) = Inr (Finite c)
    \<and> \<bar>c - x * r / (311035 / 10000)\<bar> \<le> x * r / (311035 / 10000) / 2 ^ 51"
proof -
  define p where "p = x * r"
  define a0 :: real where "a0 = 1 - 1 / 2 ^ 53"
  define a1 :: real where "a1 = 1 + 1 / 2 ^ 53"
  define g :: real where "g = 8754856938119889 / 2 ^ 48"
  define G0 :: real where "G0 = 311035 / 10000"
  define t where "t = p / G0"
  have p0: "0 < p" unfolding p_def using assms(1,2) by simp
  have G00: "0 < G0" unfolding G0_def by simp
  have t0: "0 < t" unfolding t_def using p0 G00 by simp
  have pt: "p = t * G0" unfolding t_def using G00 by simp
  have a00: "0 \<le> a0" unfolding a0_def by simp
  have a10: "0 \<le> a1" unfolding a1_def by simp
  have lo: "2 powi (- 1022) \<le> p"
  proof -
    have "(2::real) powi (- 1022) \<le> 2 powi (- 1000)" by (intro powi2_mono) simp
    then show ?thesis using assms(3) unfolding p_def by linarith
  qed
  have hi: "p \<le> 2 ^ 1023"
  proof -
    have "(2::real) ^ 1000 \<le> 2 ^ 1023" by (intro power_increasing) simp_all
    then show ?thesis using assms(4) unfolding p_def by linarith
  qed
  obtain P where P: "round_double p = Finite P" "\<bar>P - p\<bar> \<le> p / 2 ^ 53"
    using round_double_rel [OF lo hi] by blast
  have Pb: "p * a0 \<le> P" "P \<le> p * a1"
    using rel_bounds [OF P(2)] unfolding a0_def a1_def by simp_all
  have "0 \<le> p * a0" using p0 a00 by simp
  then have P0: "0 \<le> P" using Pb(1) by linarith
  have ginv: "a0 / G0 \<le> 1 / g" "1 / g \<le> a1 / G0"
    unfolding a0_def a1_def g_def G0_def by simp_all
  have ginv0: "0 \<le> a0 / G0" "0 \<le> 1 / g" using a00 G00 unfolding g_def by simp_all
  have Qlo: "t * (a0 * a0) \<le> P / g"
  proof -
    have "t * (a0 * a0) = (p * a0) * (a0 / G0)" unfolding t_def by simp
    also have "\<dots> \<le> P * (1 / g)" using Pb(1) ginv(1) P0 ginv0(1) by (rule mult_mono)
    also have "\<dots> = P / g" by simp
    finally show ?thesis .
  qed
  have Qhi: "P / g \<le> t * (a1 * a1)"
  proof -
    have "0 \<le> p * a1" using p0 a10 by simp
    have "P / g = P * (1 / g)" by simp
    also have "\<dots> \<le> (p * a1) * (a1 / G0)" using Pb(2) ginv(2) \<open>0 \<le> p * a1\<close> ginv0(2) by (rule mult_mono)
    also have "\<dots> = t * (a1 * a1)" unfolding t_def by simp
    finally show ?thesis .
  qed
  have Qlo': "2 powi (- 1022) \<le> P / g"
  proof -
    have e: "(2::real) powi (- 1000) = 2 powi (- 1022) * 2 ^ 22"
      using powi2_add [of "- 1022" 22] by simp
    have n: "G0 \<le> 2 ^ 22 * (a0 * a0)" unfolding G0_def a0_def by simp
    have "2 powi (- 1022) * 2 ^ 22 \<le> t * G0"
      using assms(3) unfolding e p_def [symmetric] pt .
    also have "\<dots> \<le> t * (2 ^ 22 * (a0 * a0))" using t0 n by (intro mult_left_mono) simp_all
    also have "\<dots> = (t * (a0 * a0)) * 2 ^ 22" by (simp only: mult.assoc mult.commute mult.left_commute)
    finally have "2 powi (- 1022) * 2 ^ 22 \<le> (t * (a0 * a0)) * 2 ^ 22" .
    then have "2 powi (- 1022) \<le> t * (a0 * a0)" by (rule mult_right_le_imp_le) simp
    then show ?thesis using Qlo by linarith
  qed
  have Qhi': "P / g \<le> 2 ^ 1023"
  proof -
    have n: "a1 * a1 \<le> G0" unfolding G0_def a1_def by simp
    have "t * (a1 * a1) \<le> t * G0" using t0 n by (intro mult_left_mono) simp_all
    also have "\<dots> = p" using pt by simp
    finally show ?thesis using Qhi hi by linarith
  qed
  obtain C where C: "round_double (P / g) = Finite C" "\<bar>C - P / g\<bar> \<le> P / g / 2 ^ 53"
    using round_double_rel [OF Qlo' Qhi'] by blast
  have Cb: "P / g * a0 \<le> C" "C \<le> P / g * a1"
    using rel_bounds [OF C(2)] unfolding a0_def a1_def by simp_all
  have n0: "1 - 1 / 2 ^ 51 \<le> a0 * a0 * a0" unfolding a0_def by simp
  have n1: "a1 * a1 * a1 \<le> 1 + 1 / 2 ^ 51" unfolding a1_def by simp
  have L: "t - t / 2 ^ 51 \<le> C"
  proof -
    have "t - t / 2 ^ 51 = t * (1 - 1 / 2 ^ 51)" by (simp add: algebra_simps)
    also have "\<dots> \<le> t * (a0 * a0 * a0)" using t0 n0 by (intro mult_left_mono) simp_all
    also have "\<dots> = t * (a0 * a0) * a0" by (simp only: mult.assoc)
    also have "\<dots> \<le> P / g * a0" using Qlo a00 by (rule mult_right_mono)
    finally show ?thesis using Cb(1) by linarith
  qed
  have U: "C \<le> t + t / 2 ^ 51"
  proof -
    have "P / g * a1 \<le> t * (a1 * a1) * a1" using Qhi a10 by (rule mult_right_mono)
    also have "\<dots> = t * (a1 * a1 * a1)" by (simp only: mult.assoc)
    also have "\<dots> \<le> t * (1 + 1 / 2 ^ 51)" using t0 n1 by (intro mult_left_mono) simp_all
    also have "\<dots> = t + t / 2 ^ 51" by (simp add: algebra_simps)
    finally show ?thesis using Cb(2) by linarith
  qed
  have acc: "\<bar>C - t\<bar> \<le> t / 2 ^ 51" using L U by linarith
  have g0: "g \<noteq> 0" unfolding g_def by simp
  have "intl_gold_cny_g (Finite x) (Finite r) = Inr (Finite C)"
    unfolding intl_gold_cny_g_def g_val py_mul.simps p_def [symmetric] P(1) g_def [symmetric]
    using g0 C(1) by simp
  then show ?thesis using acc unfolding t_def p_def G0_def by blast
qed

section \<open>Facts about the fetcher\<close>

lemma split_comma_nonempty: "split_comma s \<noteq> []"
  by (induction s) (auto split: list.splits)

lemma try_request_failed:
  "get_realtime_data_try float_of RequestFailed = Inl RequestException"
  unfolding get_realtime_data_try_def by simp

lemma try_both_parsed:
  assumes "spec_parse float_of (spec_commodity_field text) = Some x"
    and "spec_parse float_of (spec_currency_field text) = Some r"
  shows "get_realtime_data_try float_of (Response text) = Inr (x, r)"
  using assms split_comma_nonempty
  unfolding get_realtime_data_try_def spec_parse_def spec_commodity_field_def
    spec_currency_field_def py_index_def
  by (auto split: option.splits list.splits)

lemma try_not_parsed:
  assumes "spec_parse float_of (spec_commodity_field text) = None
      \<or> spec_parse float_of (spec_currency_field text) = None"
  shows "\<exists>e. get_realtime_data_try float_of (Response text) = Inl e"
  using assms split_comma_nonempty
  unfolding get_realtime_data_try_def spec_parse_def spec_commodity_field_def
    spec_currency_field_def py_index_def
  by (auto split: option.splits list.splits)

lemma fetch_error_outcome:
  assumes "get_realtime_data_try float_of r = Inl e"
  shows "get_realtime_data float_of r = ((Finite 0, Finite 0), [FetchFailed e])"
    and "dashboard float_of r ctf = (Unavailable, [FetchFailed e, ConnectingToMarket])"
  using assms unfolding dashboard_def get_realtime_data_def compute_def by simp_all

lemma try_example:
  "get_realtime_data_try float_of_example (Response response_example)
     = Inr (Finite (4069 / 2), round_double (71534 / 10000))"
  unfolding get_realtime_data_try_def response_example_def float_of_example_def
  by (simp add: match_at_def py_index_def dquote_def newline_def)

lemma try_no_currency:
  "get_realtime_data_try float_of_example (Response response_no_currency) = Inl AttributeError"
  unfolding get_realtime_data_try_def response_no_currency_def float_of_example_def
  by (simp add: match_at_def py_index_def dquote_def newline_def)

lemma fields_no_currency:
  "spec_parse float_of_example (spec_commodity_field response_no_currency)
     = Some (Finite (4069 / 2))"
  "spec_parse float_of_example (spec_currency_field response_no_currency) = None"
  unfolding spec_parse_def spec_commodity_field_def spec_currency_field_def
    response_no_currency_def float_of_example_def
  by (simp_all add: match_at_def dquote_def newline_def)

section \<open>The converted cost\<close>

text \<open>
  C1, as the specification states it, fails: a positive unit price and a positive exchange
  rate do not always give a strictly positive converted cost. Both \<^verbatim>\<open>2.0 ** -600\<close>
  are positive floats, their product underflows to zero, and so does the converted cost.
\<close>

theorem converted_cost_positive_counterexample:
  "py_gt (Finite (2 powi (- 600))) (Finite 0)
   \<and> intl_gold_cny_g (Finite (2 powi (- 600))) (Finite (2 powi (- 600))) = Inr (Finite 0)
   \<and> \<not> py_gt (Finite 0) (Finite 0)"
  using underflow_cost by simp

text \<open>
  C1, amended. For every finite unit price and exchange rate that are greater than zero
  and whose exact product is at least \<open>2 powi (- 1069)\<close>, the converted cost is the unit
  price times the exchange rate, divided by the constant 31.1035 (the double nearest to
  it), each operation being the one of Python floats, and it is strictly positive. When the
  exact product lies between \<open>2 powi (- 1000)\<close> and \<open>2 ^ 1000\<close>, the converted cost is
  finite and differs from the exact quotient by at most the fraction \<open>1 / 2 ^ 51\<close> of it.
\<close>

theorem converted_cost_positive:
  assumes "0 < unit_price" "0 < exchange_rate" "2 powi (- 1069) \<le> unit_price * exchange_rate"
  shows "intl_gold_cny_g (Finite unit_price) (Finite exchange_rate)
        = py_truediv (py_mul (Finite unit_price) (Finite exchange_rate))
            (round_double (311035 / 10000))
    \<and> (\<exists>c. intl_gold_cny_g (Finite unit_price) (Finite exchange_rate) = Inr c
           \<and> py_gt c (Finite 0))
    \<and> (2 powi (- 1000) \<le> unit_price * exchange_rate \<and> unit_price * exchange_rate \<le> 2 ^ 1000
        \<longrightarrow> (\<exists>v. intl_gold_cny_g (Finite unit_price) (Finite exchange_rate) = Inr (Finite v)
              \<and> \<bar>v - unit_price * exchange_rate / (311035 / 10000)\<bar>
                  \<le> unit_price * exchange_rate / (311035 / 10000) / 2 ^ 51))"
proof -
  have a: "intl_gold_cny_g (Finite unit_price) (Finite exchange_rate)
        = py_truediv (py_mul (Finite unit_price) (Finite exchange_rate))
            (round_double (311035 / 10000))"
    unfolding intl_gold_cny_g_def GRAMS_PER_OUNCE_def ..
  have b: "\<exists>c. intl_gold_cny_g (Finite unit_price) (Finite exchange_rate) = Inr c
           \<and> py_gt c (Finite 0)"
    using assms by (rule cost_positive)
  have c: "2 powi (- 1000) \<le> unit_price * exchange_rate \<and> unit_price * exchange_rate \<le> 2 ^ 1000
        \<longrightarrow> (\<exists>v. intl_gold_cny_g (Finite unit_price) (Finite exchange_rate) = Inr (Finite v)
              \<and> \<bar>v - unit_price * exchange_rate / (311035 / 10000)\<bar>
                  \<le> unit_price * exchange_rate / (311035 / 10000) / 2 ^ 51)"
    using cost_accurate [OF assms(1,2)] by blast
  show ?thesis using a b c by blast
qed

theorem converted_cost_positive_witness:
  "intl_gold_cny_g (Finite (4069 / 2)) (Finite (8054012393608027 / 2 ^ 50))
     = Inr (Finite (8231533536617428 / 2 ^ 44))
   \<and> py_gt (Finite (8231533536617428 / 2 ^ 44)) (Finite 0)
   \<and> \<bar>8231533536617428 / 2 ^ 44 - 4069 / 2 * (8054012393608027 / 2 ^ 50) / (311035 / 10000)\<bar>
       \<le> 4069 / 2 * (8054012393608027 / 2 ^ 50) / (311035 / 10000) / (2 ^ 51 :: real)"
proof -
  have h: "(0::real) < 4069 / 2" "(0::real) < 8054012393608027 / 2 ^ 50"
    "2 powi (- 1069) \<le> (4069 / 2 :: real) * (8054012393608027 / 2 ^ 50)"
    by (simp_all add: power_int_minus)
  have r: "2 powi (- 1000) \<le> (4069 / 2 :: real) * (8054012393608027 / 2 ^ 50)
      \<and> (4069 / 2 :: real) * (8054012393608027 / 2 ^ 50) \<le> 2 ^ 1000"
    by (simp add: power_int_minus)
  show ?thesis using converted_cost_positive [OF h] r unfolding example_cost by simp
qed

section \<open>The difference and the premium\<close>

lemma compute_rendered:
  assumes "py_gt xau_price (Finite 0)" "intl_gold_cny_g xau_price exchange_rate = Inr cost"
    "py_truediv (py_sub ctf cost) cost = Inr d"
  shows "compute (xau_price, exchange_rate) ctf =
      (Rendered \<lparr>converted_cost = cost, absolute_diff = py_sub ctf cost,
                 percentage_diff = py_mul d (Finite 100),
                 premium_band = state_msg (py_mul d (Finite 100))\<rparr>, [])"
  using assms unfolding compute_def premium_rate_def price_diff_def by simp

lemma py_truediv_nonzero: "cost \<noteq> Finite 0 \<Longrightarrow> \<exists>d. py_truediv a cost = Inr d"
  by (cases cost; cases a) simp_all

text \<open>
  C2. For every fetched pair and reference price that the script processes (the unit
  price is greater than zero and the converted cost is not zero), the script displays
  metrics in which the converted cost is the one computed from the pair, the absolute
  difference is the reference price minus the converted cost, and the percentage
  difference is the absolute difference divided by the converted cost, times 100, each
  operation being the one of Python floats. Conversely, whenever metrics are displayed,
  they are these values.
\<close>

theorem diff_formulas:
  "(py_gt xau_price (Finite 0) \<and> intl_gold_cny_g xau_price exchange_rate = Inr cost
      \<and> cost \<noteq> Finite 0
    \<longrightarrow> (\<exists>d. py_truediv (py_sub ctf cost) cost = Inr d
          \<and> compute (xau_price, exchange_rate) ctf =
              (Rendered \<lparr>converted_cost = cost, absolute_diff = py_sub ctf cost,
                         percentage_diff = py_mul d (Finite 100),
                         premium_band = state_msg (py_mul d (Finite 100))\<rparr>, [])))
   \<and> (compute (xau_price, exchange_rate) ctf = (Rendered res, shown)
    \<longrightarrow> py_gt xau_price (Finite 0)
        \<and> intl_gold_cny_g xau_price exchange_rate = Inr (converted_cost res)
        \<and> absolute_diff res = py_sub ctf (converted_cost res)
        \<and> (\<exists>d. py_truediv (absolute_diff res) (converted_cost res) = Inr d
               \<and> percentage_diff res = py_mul d (Finite 100)))"
proof -
  have a: "py_gt xau_price (Finite 0) \<and> intl_gold_cny_g xau_price exchange_rate = Inr cost
      \<and> cost \<noteq> Finite 0
    \<longrightarrow> (\<exists>d. py_truediv (py_sub ctf cost) cost = Inr d
          \<and> compute (xau_price, exchange_rate) ctf =
              (Rendered \<lparr>converted_cost = cost, absolute_diff = py_sub ctf cost,
                         percentage_diff = py_mul d (Finite 100),
                         premium_band = state_msg (py_mul d (Finite 100))\<rparr>, []))"
    using py_truediv_nonzero [of cost "py_sub ctf cost"] compute_rendered by blast
  have b: "compute (xau_price, exchange_rate) ctf = (Rendered res, shown)
    \<longrightarrow> py_gt xau_price (Finite 0)
        \<and> intl_gold_cny_g xau_price exchange_rate = Inr (converted_cost res)
        \<and> absolute_diff res = py_sub ctf (converted_cost res)
        \<and> (\<exists>d. py_truediv (absolute_diff res) (converted_cost res) = Inr d
               \<and> percentage_diff res = py_mul d (Finite 100))"
    unfolding compute_def premium_rate_def price_diff_def
    by (auto split: sum.splits if_splits)
  show ?thesis using a b by blast
qed

theorem diff_formulas_witness:
  "compute (Finite (4069 / 2), Finite (8054012393608027 / 2 ^ 50)) (Finite 736) =
      (Rendered \<lparr>converted_cost = Finite (8231533536617428 / 2 ^ 44),
                 absolute_diff = Finite (4716315392072748 / 2 ^ 44),
                 percentage_diff = Finite (8063653991315105 / 2 ^ 47),
                 premium_band = High\<rparr>, [])"
proof -
  have s: "py_sub (Finite 736) (Finite (8231533536617428 / 2 ^ 44))
      = Finite (4716315392072748 / 2 ^ 44)"
    by (simp only: py_sub.simps ex_diff)
  have q: "py_truediv (Finite (4716315392072748 / 2 ^ 44)) (Finite (8231533536617428 / 2 ^ 44))
      = Inr (Finite (5160738554441667 / 2 ^ 53))"
    by (subst py_truediv_finite, simp) (simp only: ex_ratio)
  have m: "py_mul (Finite (5160738554441667 / 2 ^ 53)) (Finite 100)
      = Finite (8063653991315105 / 2 ^ 47)"
    by (simp only: py_mul.simps ex_pct)
  have b: "state_msg (Finite (8063653991315105 / 2 ^ 47)) = High"
    unfolding state_msg_def by simp
  have h: "py_gt (Finite (4069 / 2)) (Finite 0)"
    "Finite (8231533536617428 / 2 ^ 44) \<noteq> Finite 0" by simp_all
  obtain d where d: "py_truediv (py_sub (Finite 736) (Finite (8231533536617428 / 2 ^ 44)))
        (Finite (8231533536617428 / 2 ^ 44)) = Inr d"
    and c: "compute (Finite (4069 / 2), Finite (8054012393608027 / 2 ^ 50)) (Finite 736) =
      (Rendered \<lparr>converted_cost = Finite (8231533536617428 / 2 ^ 44),
                 absolute_diff = py_sub (Finite 736) (Finite (8231533536617428 / 2 ^ 44)),
                 percentage_diff = py_mul d (Finite 100),
                 premium_band = state_msg (py_mul d (Finite 100))\<rparr>, [])"
    using diff_formulas [of "Finite (4069 / 2)" "Finite (8054012393608027 / 2 ^ 50)"
        "Finite (8231533536617428 / 2 ^ 44)" "Finite 736"] h example_cost
    by blast
  have "d = Finite (5160738554441667 / 2 ^ 53)" using d unfolding s q by simp
  then show ?thesis using c unfolding s m by (simp only: m b)
qed

section \<open>The division and its guard\<close>

text \<open>
  C3, as the specification states it, fails: the script does not check the converted cost
  before it divides by it. With the unit price 2000 and the exchange rate -7 the
  converted cost is negative, the division is performed and the metrics are displayed.
\<close>

theorem division_guard_counterexample:
  "compute (Finite 2000, Finite (- 7)) (Finite 736)
     = (Rendered \<lparr>converted_cost = Finite (- (7918420905101484 / 2 ^ 44)),
                  absolute_diff = Finite (5216567458447915 / 2 ^ 42),
                  percentage_diff = Finite (- (4635814455538135 / 2 ^ 44)),
                  premium_band = Low\<rparr>, [])
   \<and> py_le (Finite (- (7918420905101484 / 2 ^ 44))) (Finite 0)"
  using neg_rate_outcome by simp

text \<open>
  C3, amended. The only condition the script checks before the premium computation is
  that the unit price is greater than zero. When it is, the converted cost is computed
  and divided by without a check of its own: if the converted cost is zero the division
  itself raises \<^verbatim>\<open>ZeroDivisionError\<close> and no metrics are displayed, and if it is
  anything else (negative too) the division is performed and the metrics are displayed.
\<close>

theorem guard_is_price_only:
  assumes "py_gt x (Finite 0)"
  shows "\<exists>c. intl_gold_cny_g x r = Inr c
    \<and> (c = Finite 0 \<longrightarrow> compute (x, r) ctf = (Crashed ZeroDivisionError, []))
    \<and> (c \<noteq> Finite 0 \<longrightarrow>
         (\<exists>p. premium_rate (price_diff ctf c) c = Inr p
            \<and> compute (x, r) ctf =
                (Rendered \<lparr>converted_cost = c, absolute_diff = price_diff ctf c,
                           percentage_diff = p, premium_band = state_msg p\<rparr>, [])))"
proof -
  obtain c where c: "intl_gold_cny_g x r = Inr c" using intl_total by blast
  have z: "c = Finite 0 \<Longrightarrow> premium_rate (price_diff ctf c) c = Inl ZeroDivisionError"
    unfolding premium_rate_def by simp
  have nz: "c \<noteq> Finite 0 \<Longrightarrow> \<exists>p. premium_rate (price_diff ctf c) c = Inr p"
    unfolding premium_rate_def by (cases c; cases "price_diff ctf c") simp_all
  show ?thesis using assms c z nz unfolding compute_def by auto
qed

theorem guard_is_price_only_witness:
  "compute (Finite 2000, Finite 0) (Finite 736) = (Crashed ZeroDivisionError, [])
   \<and> (\<exists>p. compute (Finite 2000, Finite (- 7)) (Finite 736) =
         (Rendered \<lparr>converted_cost = Finite (- (7918420905101484 / 2 ^ 44)),
                    absolute_diff = price_diff (Finite 736) (Finite (- (7918420905101484 / 2 ^ 44))),
                    percentage_diff = p, premium_band = state_msg p\<rparr>, []))"
  using guard_is_price_only [of "Finite 2000" "Finite 0" "Finite 736"]
    guard_is_price_only [of "Finite 2000" "Finite (- 7)" "Finite 736"]
    zero_rate_cost [of 2000] neg_rate_cost
  by auto

section \<open>The guard on the unit price\<close>

lemma compute_unavailable_iff:
  "fst (compute (xau_price, exchange_rate) ctf) = Unavailable \<longleftrightarrow> \<not> py_gt xau_price (Finite 0)"
  unfolding compute_def by (auto split: sum.splits)

text \<open>
  C4. A fetched pair whose unit price is zero never reaches the formulas: the script takes
  its \<^verbatim>\<open>else\<close> branch, shows the message that no data is there yet and displays no
  metrics. Whenever the script does anything else (it displays metrics, or the division
  raises), the unit price was greater than zero.
\<close>

theorem zero_price_never_computed:
  "compute (Finite 0, exchange_rate) ctf = (Unavailable, [ConnectingToMarket])
   \<and> (fst (compute (xau_price, exchange_rate) ctf) \<noteq> Unavailable
        \<longrightarrow> py_gt xau_price (Finite 0))"
  using compute_unavailable_iff [of xau_price exchange_rate ctf]
  by (auto simp: compute_def)

theorem zero_price_never_computed_witness:
  "compute (Finite 0, round_double (71534 / 10000)) (Finite 736)
     = (Unavailable, [ConnectingToMarket])
   \<and> py_gt (Finite (4069 / 2)) (Finite 0)"
  using zero_price_never_computed [of "round_double (71534 / 10000)" "Finite 736"
      "Finite (4069 / 2)"] example_outcome
  by simp

section \<open>Failures of the fetch\<close>

text \<open>
  C5. Whenever the fetch fails (the request raises, or the response lacks a numeric first
  field on the commodity line or a numeric second field on the currency line), the
  fetcher ends in its \<^verbatim>\<open>except\<close> branch: it shows the failure message with the
  exception and returns the pair \<^verbatim>\<open>0, 0\<close>; the script then reports that no data is
  there and displays no metrics, and no exception leaves it.
\<close>

theorem fetch_failure_handled:
  assumes "r = RequestFailed
    \<or> (\<exists>text. r = Response text
          \<and> (spec_parse float_of (spec_commodity_field text) = None
               \<or> spec_parse float_of (spec_currency_field text) = None))"
  shows "\<exists>e. get_realtime_data float_of r = ((Finite 0, Finite 0), [FetchFailed e])
      \<and> dashboard float_of r ctf = (Unavailable, [FetchFailed e, ConnectingToMarket])"
proof -
  have "\<exists>e. get_realtime_data_try float_of r = Inl e"
    using assms try_request_failed try_not_parsed by blast
  then show ?thesis using fetch_error_outcome by blast
qed

theorem fetch_failure_handled_witness:
  "get_realtime_data float_of_example (Response response_no_currency)
     = ((Finite 0, Finite 0), [FetchFailed AttributeError])
   \<and> dashboard float_of_example (Response response_no_currency) (Finite 736)
     = (Unavailable, [FetchFailed AttributeError, ConnectingToMarket])"
  using fetch_failure_handled [of "Response response_no_currency" float_of_example "Finite 736"]
    fields_no_currency(2) fetch_error_outcome(1) [OF try_no_currency]
  by auto

text \<open>
  C10. The fetcher never returns a half-parsed pair: either the first field of the
  commodity line and the second field of the currency line both parse and the two parsed
  values are returned, or the pair \<^verbatim>\<open>0, 0\<close> is returned with the failure message. In
  particular, when the commodity field parses and the currency field does not, the parsed
  price is dropped.
\<close>

theorem no_partial_result:
  "((\<exists>text x r. resp = Response text
        \<and> spec_parse float_of (spec_commodity_field text) = Some x
        \<and> spec_parse float_of (spec_currency_field text) = Some r
        \<and> get_realtime_data float_of resp = ((x, r), []))
     \<or> (\<exists>e. get_realtime_data float_of resp = ((Finite 0, Finite 0), [FetchFailed e])))
   \<and> (spec_parse float_of (spec_commodity_field body) = Some price
        \<and> spec_parse float_of (spec_currency_field body) = None
      \<longrightarrow> fst (get_realtime_data float_of (Response body)) = (Finite 0, Finite 0))"
proof -
  have a: "(\<exists>text x r. resp = Response text
        \<and> spec_parse float_of (spec_commodity_field text) = Some x
        \<and> spec_parse float_of (spec_currency_field text) = Some r
        \<and> get_realtime_data float_of resp = ((x, r), []))
     \<or> (\<exists>e. get_realtime_data float_of resp = ((Finite 0, Finite 0), [FetchFailed e]))"
  proof (cases resp)
    case RequestFailed
    then show ?thesis using fetch_error_outcome(1) [OF try_request_failed] by blast
  next
    case (Response t)
    show ?thesis
    proof (cases "spec_parse float_of (spec_commodity_field t) = None
        \<or> spec_parse float_of (spec_currency_field t) = None")
      case True
      then obtain e where "get_realtime_data_try float_of (Response t) = Inl e"
        using try_not_parsed by blast
      then show ?thesis using fetch_error_outcome(1) Response by blast
    next
      case False
      then obtain x r where xr: "spec_parse float_of (spec_commodity_field t) = Some x"
        "spec_parse float_of (spec_currency_field t) = Some r" by auto
      have "get_realtime_data float_of (Response t) = ((x, r), [])"
        using try_both_parsed [OF xr] unfolding get_realtime_data_def by simp
      then show ?thesis using xr Response by blast
    qed
  qed
  have b: "spec_parse float_of (spec_commodity_field body) = Some price
        \<and> spec_parse float_of (spec_currency_field body) = None
      \<longrightarrow> fst (get_realtime_data float_of (Response body)) = (Finite 0, Finite 0)"
  proof
    assume h: "spec_parse float_of (spec_commodity_field body) = Some price
        \<and> spec_parse float_of (spec_currency_field body) = None"
    then obtain e where "get_realtime_data_try float_of (Response body) = Inl e"
      using try_not_parsed by blast
    then show "fst (get_realtime_data float_of (Response body)) = (Finite 0, Finite 0)"
      using fetch_error_outcome(1) by fastforce
  qed
  show ?thesis using a b by blast
qed

theorem no_partial_result_witness:
  "spec_parse float_of_example (spec_commodity_field response_no_currency)
     = Some (Finite (4069 / 2))
   \<and> fst (get_realtime_data float_of_example (Response response_no_currency))
     = (Finite 0, Finite 0)
   \<and> get_realtime_data float_of_example (Response response_example)
     = ((Finite (4069 / 2), round_double (71534 / 10000)), [])"
  using no_partial_result [of "Response response_no_currency" float_of_example
      response_no_currency "Finite (4069 / 2)"] fields_no_currency try_example
  by (simp add: get_realtime_data_def)

section \<open>The bands\<close>

text \<open>
  C6. The classification gives the band High to a premium greater than 30, the band
  Moderate to a premium greater than 20 that is not greater than 30, and the band Low to
  every other premium; so every premium gets exactly one of the three bands.
\<close>

theorem state_msg_bands:
  "(py_gt p (Finite 30) \<longrightarrow> state_msg p = High)
   \<and> (py_gt p (Finite 20) \<and> \<not> py_gt p (Finite 30) \<longrightarrow> state_msg p = Moderate)
   \<and> (\<not> py_gt p (Finite 20) \<longrightarrow> state_msg p = Low)
   \<and> state_msg p \<in> {Low, Moderate, High}"
  unfolding state_msg_def by (cases p) auto

theorem state_msg_bands_witness:
  "state_msg (Finite 35) = High \<and> state_msg (Finite 25) = Moderate
   \<and> state_msg (Finite 30) = Moderate \<and> state_msg (Finite 20) = Low \<and> state_msg NaN = Low"
  using state_msg_bands [of "Finite 35"] state_msg_bands [of "Finite 25"]
    state_msg_bands [of "Finite 30"] state_msg_bands [of "Finite 20"] state_msg_bands [of NaN]
  by simp

section \<open>Monotonicity of the band\<close>

text \<open>
  C7. For a fixed converted cost greater than zero and two reference prices of which the
  first is at most the second, both premiums are computed, and the band of the second is
  at least the band of the first in the order Low, Moderate, High.
\<close>

theorem band_monotone:
  assumes "py_gt cost (Finite 0)" "py_le r1 r2"
  shows "\<exists>p1 p2. premium_rate (price_diff r1 cost) cost = Inr p1
      \<and> premium_rate (price_diff r2 cost) cost = Inr p2
      \<and> band_le (state_msg p1) (state_msg p2)"
proof (cases cost)
  case (Finite c)
  then have c0: "0 < c" using assms(1) by simp
  have 1: "py_le (py_sub r1 (Finite c)) (py_sub r2 (Finite c))"
    using assms(2) by (rule py_sub_mono)
  obtain u v where uv: "py_truediv (py_sub r1 (Finite c)) (Finite c) = Inr u"
    "py_truediv (py_sub r2 (Finite c)) (Finite c) = Inr v" "py_le u v"
    using py_truediv_mono [OF c0 1] by blast
  have "py_le (py_mul u (Finite 100)) (py_mul v (Finite 100))"
    using uv(3) by (intro py_mul_mono) simp
  then have "band_le (state_msg (py_mul u (Finite 100))) (state_msg (py_mul v (Finite 100)))"
    by (rule state_msg_mono)
  then show ?thesis using uv(1,2) unfolding premium_rate_def price_diff_def Finite by simp
next
  case PosInf
  have "\<And>r. premium_rate (price_diff r PosInf) PosInf = Inr NaN"
  proof -
    fix r show "premium_rate (price_diff r PosInf) PosInf = Inr NaN"
      unfolding premium_rate_def price_diff_def by (cases r) simp_all
  qed
  then show ?thesis unfolding PosInf band_le_def by simp
next
  case NegInf
  then show ?thesis using assms(1) by simp
next
  case NaN
  then show ?thesis using assms(1) by simp
qed

theorem band_monotone_witness:
  "\<exists>p1 p2. premium_rate (price_diff (Finite 600) (Finite (8231533536617428 / 2 ^ 44)))
               (Finite (8231533536617428 / 2 ^ 44)) = Inr p1
      \<and> premium_rate (price_diff (Finite 736) (Finite (8231533536617428 / 2 ^ 44)))
               (Finite (8231533536617428 / 2 ^ 44)) = Inr p2
      \<and> band_le (state_msg p1) (state_msg p2)"
  using band_monotone [of "Finite (8231533536617428 / 2 ^ 44)" "Finite 600" "Finite 736"]
  by simp

section \<open>The specification's example\<close>

text \<open>
  C8, as the specification states it, fails: for the unit price 2034.50, the exchange
  rate 7.1534 and the reference price 736.0 the script does not display a converted cost
  of about 467.80, a difference of about 268.20 and a premium of about 57.34.
\<close>

theorem example_figures_counterexample:
  "\<not> shows_figures (fst (compute (Finite (4069 / 2), round_double (71534 / 10000)) (Finite 736)))
       (46780 / 100) (26820 / 100) (5734 / 100) High"
  unfolding example_outcome by simp

text \<open>
  C8, amended. For the unit price 2034.50, the exchange rate 7.1534, 31.1035 grams per
  ounce and the reference price 736.0 the script displays a converted cost of about
  467.91, a difference of about 268.09 and a premium of about 57.30, classified High.
\<close>

theorem example_figures:
  "shows_figures (fst (compute (Finite (4069 / 2), round_double (71534 / 10000)) (Finite 736)))
     (46791 / 100) (26809 / 100) (5730 / 100) High"
  unfolding example_outcome by simp

end
